theory Spec2Isabelle
  imports Main "HOL-Library.Word"
begin

section \<open>The ldd demo driver (src/ldd.c)\<close>

text \<open>
  The module keeps two globals, \<open>custom_proc_node\<close> and \<open>message_buffer\<close>, and gives the
  kernel four entry points: the read and write handlers of \<open>/proc/ldd_demo_driver\<close> and
  the module's init and exit functions. Each entry point is a function from the state
  before the call to the state after it, together with what the call returns.

  Machine types are those of an LP64 kernel: \<open>size_t\<close> is an unsigned 64-bit word,
  \<open>ssize_t\<close> and \<open>loff_t\<close> are 64-bit words read as two's complement (\<open>sint\<close>), a C
  \<open>char\<close> is an Isabelle \<open>char\<close> (one byte), \<open>int\<close> results that cannot overflow are
  \<open>int\<close>. The \<open>printk\<close> calls only append to the kernel log and are left out.
\<close>

subsection \<open>Types and constants\<close>

type_synonym size_t = "64 word"
type_synonym ssize_t = "64 word"
type_synonym loff_t = "64 word"

definition MAX_INPUT_SIZE :: nat where
  "MAX_INPUT_SIZE = 128"

definition EFAULT :: int where
  "EFAULT = 14"

definition ENOMEM :: int where
  "ENOMEM = 12"

definition NUL :: char where
  "NUL = CHR 0x00"

text \<open>
  \<open>struct proc_ops driver_proc_ops\<close>: which handler serves which file operation. Only
  the two members the source sets are kept.
\<close>

datatype handler = Ldd_read_proc | Ldd_write_proc

record proc_ops =
  proc_read :: "handler option"
  proc_write :: "handler option"

definition driver_proc_ops :: proc_ops where
  "driver_proc_ops = \<lparr>proc_read = Some Ldd_read_proc, proc_write = Some Ldd_write_proc\<rparr>"

text \<open>
  A \<open>struct proc_dir_entry\<close> as far as \<open>proc_create\<close> fills it in: name, mode and
  operations. A pointer to an entry is the entry itself, \<open>NULL\<close> is \<open>None\<close>.
\<close>

record proc_dir_entry =
  pde_name :: string
  pde_mode :: nat
  pde_ops :: proc_ops

text \<open>The module's globals.\<close>

record driver_state =
  custom_proc_node :: "proc_dir_entry option"
  message_buffer :: "char list"

text \<open>
  \<open>static char message_buffer[MAX_INPUT_SIZE + 1] = "Hello from ldd demo driver entry!\n"\<close>:
  a C array initialised from a shorter string literal is filled up with zero bytes.
  \<open>custom_proc_node\<close> has static storage and no initialiser, so it starts as \<open>NULL\<close>.
\<close>

definition greeting :: "char list" where
  "greeting = ''Hello from ldd demo driver entry!'' @ [CHR 0x0A]"

definition initial_state :: driver_state where
  "initial_state =
     \<lparr>custom_proc_node = None,
      message_buffer = greeting @ replicate (MAX_INPUT_SIZE + 1 - length greeting) NUL\<rparr>"

subsection \<open>The kernel services the handlers call\<close>

text \<open>
  These functions belong to the kernel, not to the module; they are modelled by their
  documented contracts (\<open>linux/string.h\<close>, \<open>linux/uaccess.h\<close>).

  \<open>strlen\<close> counts the bytes before the first NUL. On an array that holds no NUL the C
  function reads past the end of the array; the model returns \<open>None\<close> there.
\<close>

fun strlen :: "char list \<Rightarrow> nat option" where
  "strlen [] = None"
| "strlen (c # cs) = (if c = NUL then Some 0 else map_option Suc (strlen cs))"

text \<open>
  User memory at a user pointer is the list of bytes that can be accessed from that
  pointer on; an access beyond the list faults. Both copy functions return the new
  contents of their destination and the number of bytes that could not be copied
  (0 on success), as the kernel's do.

  \<open>copy_to_user dst src n\<close> stores the first \<open>n\<close> bytes of the kernel buffer \<open>src\<close> into the
  user memory \<open>dst\<close>, stopping where \<open>dst\<close> faults.
\<close>

definition copy_to_user :: "char list \<Rightarrow> char list \<Rightarrow> nat \<Rightarrow> char list \<times> nat" where
  "copy_to_user dst src n =
     (let k = min n (length dst) in (take k src @ drop k dst, n - k))"

text \<open>
  \<open>copy_from_user dst src n\<close> stores the first \<open>n\<close> bytes of the user memory \<open>src\<close> into the
  kernel buffer \<open>dst\<close>. When \<open>src\<close> faults before \<open>n\<close> bytes were read, the bytes read so far
  are stored and the rest of the \<open>n\<close> bytes of \<open>dst\<close> is zeroed.
\<close>

definition copy_from_user :: "char list \<Rightarrow> char list \<Rightarrow> nat \<Rightarrow> char list \<times> nat" where
  "copy_from_user dst src n =
     (let k = min n (length src)
      in (take k src @ replicate (n - k) NUL @ drop n dst, n - k))"

subsection \<open>The read handler\<close>

text \<open>
  \<open>ldd_read_proc\<close> (ldd.c, lines 39 to 58). The arguments are the module state, the user
  memory at \<open>user_space_buffer\<close>, \<open>count\<close> and the value of \<open>*offset\<close>; the result holds the
  state, the user memory and \<open>*offset\<close> after the call and the value returned. The
  comparison \<open>*offset >= len\<close> is between a \<open>long long\<close> and an \<open>unsigned long\<close>; both are
  converted to \<open>unsigned long long\<close>, so it is the unsigned order of words.
\<close>

datatype fault = Unterminated_Buffer

definition ldd_read_proc ::
  "driver_state \<Rightarrow> char list \<Rightarrow> size_t \<Rightarrow> loff_t \<Rightarrow>
   fault + (driver_state \<times> char list \<times> loff_t \<times> ssize_t)" where
  "ldd_read_proc s user_space_buffer count offset =
     (case strlen (message_buffer s) of
        None \<Rightarrow> Inl Unterminated_Buffer
      | Some len \<Rightarrow>
          if offset \<ge> word_of_nat len \<or> count < word_of_nat len
          then Inr (s, user_space_buffer, offset, 0)
          else
            (case copy_to_user user_space_buffer (message_buffer s) len of
               (user', not_copied) \<Rightarrow>
                 if not_copied \<noteq> 0
                 then Inr (s, user', offset, word_of_int (- EFAULT))
                 else Inr (s, user', offset + word_of_nat len, word_of_nat len)))"

subsection \<open>The write handler\<close>

text \<open>
  \<open>ldd_write_proc\<close> (ldd.c, lines 77 to 95). The arguments are as for the read handler;
  the user memory is only read, so the result holds the state and \<open>*offset\<close> after the
  call and the value returned.
\<close>

definition ldd_write_proc ::
  "driver_state \<Rightarrow> char list \<Rightarrow> size_t \<Rightarrow> loff_t \<Rightarrow> driver_state \<times> loff_t \<times> ssize_t" where
  "ldd_write_proc s user_space_buffer count offset =
     (let count = (if count > word_of_nat MAX_INPUT_SIZE then word_of_nat MAX_INPUT_SIZE
                   else count)
      in case copy_from_user (message_buffer s) user_space_buffer (unat count) of
           (buf, not_copied) \<Rightarrow>
             if not_copied \<noteq> 0
             then (s\<lparr>message_buffer := buf\<rparr>, offset, word_of_int (- EFAULT))
             else (s\<lparr>message_buffer := buf[unat count := NUL]\<rparr>, offset, count))"

subsection \<open>Registration\<close>

text \<open>
  The proc filesystem is the list of entries registered under \<open>/proc\<close>. \<open>proc_create\<close>
  and \<open>proc_remove\<close> belong to the kernel and are modelled by their contract:
  \<open>proc_create\<close> allocates an entry and links it under its name, and returns \<open>NULL\<close>,
  changing nothing, when the allocation fails (\<open>can_alloc\<close> is false) or the name is
  taken; \<open>proc_remove\<close> unlinks an entry.
\<close>

type_synonym procfs = "proc_dir_entry list"

definition proc_create ::
  "bool \<Rightarrow> string \<Rightarrow> nat \<Rightarrow> proc_ops \<Rightarrow> procfs \<Rightarrow> procfs \<times> proc_dir_entry option" where
  "proc_create can_alloc name mode ops fs =
     (if can_alloc \<and> name \<notin> set (map pde_name fs)
      then (let e = \<lparr>pde_name = name, pde_mode = mode, pde_ops = ops\<rparr>
            in (fs @ [e], Some e))
      else (fs, None))"

definition proc_remove :: "proc_dir_entry \<Rightarrow> procfs \<Rightarrow> procfs" where
  "proc_remove e fs = removeAll e fs"

text \<open>The node's name and its mode, octal 0644.\<close>

definition node_name :: string where
  "node_name = ''ldd_demo_driver''"

definition node_mode :: nat where
  "node_mode = 6 * 64 + 4 * 8 + 4"

text \<open>
  \<open>mydrv_init\<close> (ldd.c, lines 120 to 132) and \<open>mydrv_exit\<close> (lines 145 to 155), on the
  proc filesystem and the module state.
\<close>

definition mydrv_init :: "bool \<Rightarrow> procfs \<Rightarrow> driver_state \<Rightarrow> procfs \<times> driver_state \<times> int" where
  "mydrv_init can_alloc fs s =
     (case proc_create can_alloc node_name node_mode driver_proc_ops fs of
        (fs', node) \<Rightarrow>
          (let s' = s\<lparr>custom_proc_node := node\<rparr>
           in if node = None then (fs', s', - ENOMEM) else (fs', s', 0)))"

definition mydrv_exit :: "procfs \<Rightarrow> driver_state \<Rightarrow> procfs \<times> driver_state" where
  "mydrv_exit fs s =
     (case custom_proc_node s of
        Some node \<Rightarrow> (proc_remove node fs, s\<lparr>custom_proc_node := None\<rparr>)
      | None \<Rightarrow> (fs, s))"

text \<open>The entry \<open>mydrv_init\<close> asks \<open>proc_create\<close> for.\<close>

definition ldd_node :: proc_dir_entry where
  "ldd_node = \<lparr>pde_name = node_name, pde_mode = node_mode, pde_ops = driver_proc_ops\<rparr>"

subsection \<open>Sequences of handler calls\<close>

text \<open>
  A call of a handler with its arguments: the user memory at \<open>user_space_buffer\<close>,
  \<open>count\<close> and \<open>*offset\<close>. \<open>run\<close> performs a sequence of calls on the module state and
  stops at a read of an unterminated buffer.
\<close>

datatype call = Read "char list" size_t loff_t | Write "char list" size_t loff_t

fun step :: "driver_state \<Rightarrow> call \<Rightarrow> fault + driver_state" where
  "step s (Read user count offset) = map_sum id fst (ldd_read_proc s user count offset)"
| "step s (Write user count offset) = Inr (fst (ldd_write_proc s user count offset))"

fun run :: "driver_state \<Rightarrow> call list \<Rightarrow> fault + driver_state" where
  "run s [] = Inr s"
| "run s (c # cs) = (case step s c of Inl f \<Rightarrow> Inl f | Inr s' \<Rightarrow> run s' cs)"

text \<open>
  The array has \<open>MAX_INPUT_SIZE + 1\<close> elements by its type; \<open>buffer_sized\<close> says so of a
  state of the model.
\<close>

definition buffer_sized :: "driver_state \<Rightarrow> bool" where
  "buffer_sized s = (length (message_buffer s) = MAX_INPUT_SIZE + 1)"

text \<open>
  \<open>terminated\<close> is the invariant of the buffer: it has its declared size and its last
  element, which no copy reaches, is NUL.
\<close>

definition terminated :: "driver_state \<Rightarrow> bool" where
  "terminated s =
     (buffer_sized s \<and> message_buffer s ! MAX_INPUT_SIZE = NUL)"

section \<open>Auxiliary facts\<close>

subsection \<open>C strings\<close>

lemma strlen_Some_iff:
  "strlen xs = Some n \<longleftrightarrow> n < length xs \<and> xs ! n = NUL \<and> NUL \<notin> set (take n xs)"
proof (induction xs arbitrary: n)
  case Nil
  show ?case by simp
next
  case (Cons a xs)
  show ?case
  proof (cases n)
    case 0
    then show ?thesis by auto
  next
    case (Suc m)
    then show ?thesis using Cons.IH [of m] by auto
  qed
qed

lemma strlen_None_iff: "strlen xs = None \<longleftrightarrow> NUL \<notin> set xs"
  by (induction xs) auto

lemma strlen_append_NUL:
  "NUL \<notin> set xs \<Longrightarrow> strlen (xs @ NUL # ys) = Some (length xs)"
  by (induction xs) auto

lemma strlen_sized:
  assumes "buffer_sized s" and "strlen (message_buffer s) = Some len"
  shows "len \<le> 128"
  using assms by (simp add: strlen_Some_iff buffer_sized_def MAX_INPUT_SIZE_def)

subsection \<open>Lengths as 64-bit words\<close>

lemma unat_len: "n \<le> 128 \<Longrightarrow> unat (word_of_nat n :: 64 word) = n"
  by (simp add: unat_of_nat)

lemma sint_len: "n \<le> 128 \<Longrightarrow> sint (word_of_nat n :: 64 word) = int n"
  by (simp add: signed_of_nat signed_take_bit_int_eq_self)

lemma sint_EFAULT: "sint (word_of_int (- EFAULT) :: 64 word) = - 14"
  by (simp add: EFAULT_def)

lemma le_len_iff: "n \<le> 128 \<Longrightarrow> (word_of_nat n \<le> (w :: 64 word)) = (n \<le> unat w)"
  by (simp add: word_le_nat_alt unat_len)

lemma less_len_iff: "n \<le> 128 \<Longrightarrow> ((w :: 64 word) < word_of_nat n) = (unat w < n)"
  by (simp add: word_less_nat_alt unat_len)

lemma sint_nonneg_unat:
  assumes "0 \<le> sint (w :: 64 word)"
  shows "int (unat w) = sint w"
proof -
  have "sint w < 2 ^ (LENGTH(64) - 1)"
    by (rule sint_lt)
  also have "(2::int) ^ (LENGTH(64) - 1) \<le> 2 ^ 64"
    by (rule power_increasing) simp_all
  finally have "take_bit 64 (sint w) = sint w"
    using assms by (intro take_bit_int_eq_self)
  moreover have "uint w = take_bit 64 (sint w)"
    using uint_sint [of w] by simp
  ultimately have "uint w = sint w"
    by (simp only:)
  then show ?thesis
    by (simp only: uint_nat)
qed

subsection \<open>The copy functions\<close>

lemma copy_from_user_length:
  "n \<le> length dst \<Longrightarrow> length (fst (copy_from_user dst src n)) = length dst"
  by (simp add: copy_from_user_def Let_def)

lemma copy_from_user_drop:
  "drop n (fst (copy_from_user dst src n)) = drop n dst"
  by (simp add: copy_from_user_def Let_def)

lemma copy_from_user_ok:
  "snd (copy_from_user dst src n) = 0 \<Longrightarrow>
   fst (copy_from_user dst src n) = take n src @ drop n dst \<and> n \<le> length src"
  by (simp add: copy_from_user_def Let_def)

subsection \<open>The handlers, unfolded\<close>

text \<open>
  The write handler in terms of the clamped count as a natural number: the test
  \<open>count > MAX_INPUT_SIZE\<close> and the assignment compute \<open>min count MAX_INPUT_SIZE\<close>.
\<close>

lemma write_unfold:
  "ldd_write_proc s user count offset =
     (let n = min (unat count) MAX_INPUT_SIZE;
          r = copy_from_user (message_buffer s) user n
      in if snd r \<noteq> 0
         then (s\<lparr>message_buffer := fst r\<rparr>, offset, word_of_int (- EFAULT))
         else (s\<lparr>message_buffer := (fst r)[n := NUL]\<rparr>, offset, word_of_nat n))"
proof (cases "word_of_nat MAX_INPUT_SIZE < count")
  case True
  then have "min (unat count) MAX_INPUT_SIZE = MAX_INPUT_SIZE"
    by (simp add: MAX_INPUT_SIZE_def word_less_nat_alt)
  moreover have "unat (word_of_nat MAX_INPUT_SIZE :: 64 word) = MAX_INPUT_SIZE"
    by (simp add: MAX_INPUT_SIZE_def)
  ultimately show ?thesis
    using True by (simp add: ldd_write_proc_def Let_def split: prod.split)
next
  case False
  then have "min (unat count) MAX_INPUT_SIZE = unat count"
    by (simp add: MAX_INPUT_SIZE_def word_less_nat_alt)
  then show ?thesis
    using False by (simp add: ldd_write_proc_def Let_def split: prod.split)
qed

lemma read_state:
  "strlen (message_buffer s) = Some len \<Longrightarrow>
   \<exists>user' offset' ret. ldd_read_proc s user count offset = Inr (s, user', offset', ret)"
  by (simp add: ldd_read_proc_def split: prod.split)

subsection \<open>The invariant\<close>

lemma terminated_strlen:
  assumes "terminated s"
  shows "\<exists>n. strlen (message_buffer s) = Some n \<and> n \<le> MAX_INPUT_SIZE"
proof -
  have "NUL \<in> set (message_buffer s)"
    using assms nth_mem [of MAX_INPUT_SIZE "message_buffer s"]
    by (simp add: terminated_def buffer_sized_def)
  then obtain n where n: "strlen (message_buffer s) = Some n"
    using strlen_None_iff [of "message_buffer s"] by (cases "strlen (message_buffer s)") auto
  then have "n < length (message_buffer s)"
    by (simp add: strlen_Some_iff)
  then show ?thesis
    using assms n by (simp add: terminated_def buffer_sized_def)
qed

lemma write_terminated:
  assumes "terminated s"
  shows "terminated (fst (ldd_write_proc s user count offset))"
proof -
  let ?n = "min (unat count) MAX_INPUT_SIZE"
  let ?buf = "fst (copy_from_user (message_buffer s) user ?n)"
  have len: "length (message_buffer s) = MAX_INPUT_SIZE + 1"
    using assms by (simp add: terminated_def buffer_sized_def)
  have n: "?n \<le> MAX_INPUT_SIZE"
    by simp
  have l: "length ?buf = MAX_INPUT_SIZE + 1"
    using len n by (simp add: copy_from_user_length)
  have "drop ?n ?buf ! (MAX_INPUT_SIZE - ?n) = drop ?n (message_buffer s) ! (MAX_INPUT_SIZE - ?n)"
    by (simp only: copy_from_user_drop)
  then have last: "?buf ! MAX_INPUT_SIZE = NUL"
    using assms l len n by (simp add: terminated_def)
  have "(?buf[?n := NUL]) ! MAX_INPUT_SIZE = NUL"
    using last l by (cases "?n = MAX_INPUT_SIZE") simp_all
  then show ?thesis
    using last l
    by (simp add: terminated_def buffer_sized_def write_unfold Let_def)
qed

lemma step_terminated:
  assumes "terminated s"
  shows "\<exists>s'. step s c = Inr s' \<and> terminated s'"
proof (cases c)
  case (Read user count offset)
  obtain n where "strlen (message_buffer s) = Some n"
    using terminated_strlen [OF assms] by blast
  then obtain user' offset' ret
    where "ldd_read_proc s user count offset = Inr (s, user', offset', ret)"
    using read_state by blast
  then show ?thesis
    using Read assms by simp
next
  case (Write user count offset)
  then show ?thesis
    using write_terminated [OF assms] by simp
qed

lemma run_terminated:
  "terminated s \<Longrightarrow> \<exists>s'. run s cs = Inr s' \<and> terminated s'"
proof (induction cs arbitrary: s)
  case Nil
  then show ?case by simp
next
  case (Cons c cs)
  obtain s1 where s1: "step s c = Inr s1" "terminated s1"
    using step_terminated [OF Cons.prems] by blast
  then show ?case
    using Cons.IH [of s1] by simp
qed

lemma initial_terminated: "terminated initial_state"
  by (simp add: terminated_def buffer_sized_def initial_state_def greeting_def
      MAX_INPUT_SIZE_def nth_append)

lemma initial_strlen: "strlen (message_buffer initial_state) = Some 34"
  by code_simp

lemma initial_sized: "buffer_sized initial_state"
  by (simp add: buffer_sized_def initial_state_def greeting_def MAX_INPUT_SIZE_def)

subsection \<open>The read handler on a buffer of the declared size\<close>

lemma copy_to_user_unfold:
  "copy_to_user dst src n =
     (take (min n (length dst)) src @ drop (min n (length dst)) dst, n - min n (length dst))"
  by (simp add: copy_to_user_def Let_def)

lemma read_unfold:
  assumes "buffer_sized s" and "strlen (message_buffer s) = Some len"
  shows "ldd_read_proc s user count offset =
     (if len \<le> unat offset \<or> unat count < len then Inr (s, user, offset, 0)
      else if snd (copy_to_user user (message_buffer s) len) \<noteq> 0
      then Inr (s, fst (copy_to_user user (message_buffer s) len), offset,
                word_of_int (- EFAULT))
      else Inr (s, fst (copy_to_user user (message_buffer s) len),
                offset + word_of_nat len, word_of_nat len))"
proof -
  have "len \<le> 128"
    using assms by (rule strlen_sized)
  then show ?thesis
    using assms(2)
    by (simp add: ldd_read_proc_def le_len_iff less_len_iff split: prod.split)
qed

subsection \<open>The write handler on a buffer of the declared size\<close>

lemma write_ok_buffer:
  assumes "buffer_sized s" and "n = min (unat count) MAX_INPUT_SIZE"
    and "snd (copy_from_user (message_buffer s) user n) = 0"
  shows "n \<le> length user"
    and "ldd_write_proc s user count offset =
       (s\<lparr>message_buffer := take n user @ NUL # drop (Suc n) (message_buffer s)\<rparr>,
        offset, word_of_nat n)"
proof -
  have c: "fst (copy_from_user (message_buffer s) user n) = take n user @ drop n (message_buffer s)"
    and u: "n \<le> length user"
    using copy_from_user_ok [OF assms(3)] by simp_all
  show "n \<le> length user"
    by (rule u)
  have "n < length (message_buffer s)"
    using assms(1,2) by (simp add: buffer_sized_def)
  then have "drop n (message_buffer s) = message_buffer s ! n # drop (Suc n) (message_buffer s)"
    by (simp add: Cons_nth_drop_Suc)
  then have "(take n user @ drop n (message_buffer s))[n := NUL] =
      take n user @ NUL # drop (Suc n) (message_buffer s)"
    using u by (simp add: list_update_append)
  then show "ldd_write_proc s user count offset =
       (s\<lparr>message_buffer := take n user @ NUL # drop (Suc n) (message_buffer s)\<rparr>,
        offset, word_of_nat n)"
    using assms(2,3) c by (simp add: write_unfold Let_def)
qed

lemma write_frame:
  assumes "buffer_sized s" and "n = min (unat count) MAX_INPUT_SIZE"
  shows "length (message_buffer (fst (ldd_write_proc s user count offset))) = MAX_INPUT_SIZE + 1"
    and "drop (Suc n) (message_buffer (fst (ldd_write_proc s user count offset))) =
         drop (Suc n) (message_buffer s)"
proof -
  let ?buf = "fst (copy_from_user (message_buffer s) user n)"
  have n: "n \<le> length (message_buffer s)"
    using assms by (simp add: buffer_sized_def)
  have l: "length ?buf = MAX_INPUT_SIZE + 1"
    using assms(1) copy_from_user_length [OF n] by (simp add: buffer_sized_def)
  have "drop (Suc n) ?buf = drop 1 (drop n ?buf)"
    by simp
  also have "\<dots> = drop (Suc n) (message_buffer s)"
    by (simp only: copy_from_user_drop) simp
  finally have d: "drop (Suc n) ?buf = drop (Suc n) (message_buffer s)" .
  show "length (message_buffer (fst (ldd_write_proc s user count offset))) = MAX_INPUT_SIZE + 1"
    using l assms(2) by (simp add: write_unfold Let_def)
  show "drop (Suc n) (message_buffer (fst (ldd_write_proc s user count offset))) =
         drop (Suc n) (message_buffer s)"
    using d assms(2) by (simp add: write_unfold Let_def)
qed

subsection \<open>Exits and return values\<close>

lemma read_cases:
  assumes "strlen (message_buffer s) = Some len"
  obtains
    (eof) "offset \<ge> word_of_nat len \<or> count < word_of_nat len"
      "ldd_read_proc s user count offset = Inr (s, user, offset, 0)"
  | (fail) "\<not> (offset \<ge> word_of_nat len \<or> count < word_of_nat len)"
      "snd (copy_to_user user (message_buffer s) len) \<noteq> 0"
      "ldd_read_proc s user count offset =
         Inr (s, fst (copy_to_user user (message_buffer s) len), offset,
              word_of_int (- EFAULT))"
  | (ok) "\<not> (offset \<ge> word_of_nat len \<or> count < word_of_nat len)"
      "snd (copy_to_user user (message_buffer s) len) = 0"
      "ldd_read_proc s user count offset =
         Inr (s, fst (copy_to_user user (message_buffer s) len),
              offset + word_of_nat len, word_of_nat len)"
proof (cases "offset \<ge> word_of_nat len \<or> count < word_of_nat len")
  case True
  then show ?thesis
    using assms eof by (simp add: ldd_read_proc_def)
next
  case False
  show ?thesis
  proof (cases "snd (copy_to_user user (message_buffer s) len) = 0")
    case True
    then show ?thesis
      using assms False ok by (simp add: ldd_read_proc_def case_prod_beta)
  next
    case nz: False
    then show ?thesis
      using assms False fail by (simp add: ldd_read_proc_def case_prod_beta)
  qed
qed

lemma len_not_EFAULT:
  assumes "k \<le> 128"
  shows "(word_of_nat k :: 64 word) \<noteq> word_of_int (- EFAULT)"
proof
  assume "(word_of_nat k :: 64 word) = word_of_int (- EFAULT)"
  then have "sint (word_of_nat k :: 64 word) = sint (word_of_int (- EFAULT) :: 64 word)"
    by (simp only:)
  then have "int k = - 14"
    by (simp only: sint_len [OF assms] sint_EFAULT)
  then show False
    by simp
qed

lemma ret_negative_iff:
  assumes "ret = word_of_int (- EFAULT) \<or> (\<exists>k\<le>128. ret = word_of_nat k)"
  shows "sint (ret :: 64 word) < 0 \<longleftrightarrow> ret = word_of_int (- EFAULT)"
  using assms
proof
  assume "ret = word_of_int (- EFAULT)"
  then show ?thesis
    using sint_EFAULT by simp
next
  assume "\<exists>k\<le>128. ret = word_of_nat k"
  then obtain k where k: "k \<le> 128" "ret = word_of_nat k"
    by blast
  have "sint ret = int k"
    using k sint_len by simp
  then have "\<not> sint ret < 0"
    by simp
  then show ?thesis
    using k len_not_EFAULT by simp
qed


subsection \<open>Registration\<close>

lemma proc_create_None_iff:
  "snd (proc_create can_alloc name mode ops fs) = None \<longleftrightarrow>
     \<not> (can_alloc \<and> name \<notin> set (map pde_name fs))"
  by (simp add: proc_create_def Let_def)

lemma init_unfold:
  "mydrv_init can_alloc fs s =
     (if can_alloc \<and> node_name \<notin> set (map pde_name fs)
      then (fs @ [ldd_node], s\<lparr>custom_proc_node := Some ldd_node\<rparr>, 0)
      else (fs, s\<lparr>custom_proc_node := None\<rparr>, - ENOMEM))"
  by (simp add: mydrv_init_def proc_create_def Let_def ldd_node_def)

section \<open>The properties\<close>

text \<open>
  C4. In every state reached from the initial greeting by any sequence of calls of the
  write and read handlers (no such sequence stops at an unterminated buffer),
  \<open>message_buffer\<close> has its \<open>MAX_INPUT_SIZE + 1\<close> bytes and holds a NUL-terminated string of
  length at most \<open>MAX_INPUT_SIZE\<close>: \<open>strlen\<close> finds the terminator at an index \<open>n\<close> within the
  buffer, with \<open>n \<le> MAX_INPUT_SIZE\<close>.
\<close>

theorem message_buffer_invariant:
  "\<exists>s n. run initial_state calls = Inr s \<and>
     length (message_buffer s) = MAX_INPUT_SIZE + 1 \<and>
     strlen (message_buffer s) = Some n \<and> n \<le> MAX_INPUT_SIZE \<and>
     message_buffer s ! n = NUL"
proof -
  obtain s where s: "run initial_state calls = Inr s" "terminated s"
    using run_terminated [OF initial_terminated] by blast
  obtain n where n: "strlen (message_buffer s) = Some n" "n \<le> MAX_INPUT_SIZE"
    using terminated_strlen [OF s(2)] by blast
  have "message_buffer s ! n = NUL"
    using n(1) by (simp add: strlen_Some_iff)
  then show ?thesis
    using s n by (simp add: terminated_def buffer_sized_def)
qed

theorem message_buffer_invariant_witness:
  "(\<exists>s n. run initial_state [Write ''hi'' 2 0, Read ''........'' 8 0] = Inr s \<and>
     length (message_buffer s) = MAX_INPUT_SIZE + 1 \<and>
     strlen (message_buffer s) = Some n \<and> n \<le> MAX_INPUT_SIZE \<and>
     message_buffer s ! n = NUL) \<and>
   strlen (message_buffer (fst (ldd_write_proc initial_state ''hi'' 2 0))) = Some 2"
proof -
  have "strlen (message_buffer (fst (ldd_write_proc initial_state ''hi'' 2 0))) = Some 2"
    by code_simp
  then show ?thesis
    using message_buffer_invariant [of "[Write ''hi'' 2 0, Read ''........'' 8 0]"]
    by (simp only: simp_thms)
qed

text \<open>
  C8. On a buffer of the declared size holding a string of length \<open>len\<close>, a read with
  \<open>*offset \<ge> len\<close> (the offset read as the signed value it is) or with \<open>count < len\<close>
  returns 0 and leaves the user memory, \<open>*offset\<close> and the module state as they were. So
  a read that asks for fewer bytes than the message has gets 0, not a part of it.
\<close>

theorem read_eof:
  assumes "buffer_sized s" and "strlen (message_buffer s) = Some len"
    and "int len \<le> sint offset \<or> unat count < len"
  shows "ldd_read_proc s user count offset = Inr (s, user, offset, 0)"
proof -
  have "len \<le> unat offset" if "int len \<le> sint offset"
  proof -
    have "0 \<le> sint offset"
      using that by simp
    then have "int (unat offset) = sint offset"
      by (rule sint_nonneg_unat)
    then have "int len \<le> int (unat offset)"
      using that by (simp only:)
    then show ?thesis
      by (simp only: of_nat_le_iff)
  qed
  then have "len \<le> unat offset \<or> unat count < len"
    using assms(3) by blast
  then show ?thesis
    by (simp add: read_unfold [OF assms(1,2)])
qed

theorem read_eof_witness:
  "buffer_sized initial_state \<and> strlen (message_buffer initial_state) = Some 34 \<and>
   ldd_read_proc initial_state ''0123456789'' 10 0 = Inr (initial_state, ''0123456789'', 0, 0) \<and>
   ldd_read_proc initial_state (replicate 40 NUL) 40 34 =
     Inr (initial_state, replicate 40 NUL, 34, 0)"
proof -
  have a: "int 34 \<le> sint (0 :: loff_t) \<or> unat (10 :: size_t) < 34"
    by simp
  have b: "int 34 \<le> sint (34 :: loff_t) \<or> unat (40 :: size_t) < 34"
    by simp
  show ?thesis
    using read_eof [OF initial_sized initial_strlen a, of "''0123456789''"]
      read_eof [OF initial_sized initial_strlen b, of "replicate 40 NUL"]
      initial_sized initial_strlen
    by (simp only: simp_thms)
qed

text \<open>
  C10. A read of a terminated buffer returns the module state it was given: neither
  \<open>message_buffer\<close> nor \<open>custom_proc_node\<close> changes, whatever the arguments and whichever
  of its three exits the call takes. What a call can change is the user memory and
  \<open>*offset\<close>.
\<close>

theorem read_frame:
  assumes "strlen (message_buffer s) = Some len"
  shows "\<exists>user' offset' ret.
           ldd_read_proc s user count offset = Inr (s, user', offset', ret)"
  using assms by (rule read_state)

theorem read_frame_witness:
  "strlen (message_buffer initial_state) = Some 34 \<and>
   (\<exists>user' offset' ret.
      ldd_read_proc initial_state (replicate 40 NUL) 40 0 =
        Inr (initial_state, user', offset', ret)) \<and>
   ldd_read_proc initial_state (replicate 40 NUL) 40 0 =
     Inr (initial_state, greeting @ replicate 6 NUL, 34, 34)"
proof -
  have "ldd_read_proc initial_state (replicate 40 NUL) 40 0 =
     Inr (initial_state, greeting @ replicate 6 NUL, 34, 34)"
    by code_simp
  then show ?thesis
    using read_frame [OF initial_strlen, of "replicate 40 NUL" 40 0] initial_strlen
    by (simp only: simp_thms)
qed

text \<open>
  C3. On a buffer of the declared size holding a string of length \<open>len\<close>, every read
  stores at most \<open>len\<close> bytes in user memory: the user memory after the call is the
  first \<open>k\<close> bytes of \<open>message_buffer\<close>, for some \<open>k \<le> len\<close>, followed by what was there
  before. A call that returns data (a positive value) has stored exactly the \<open>len\<close>
  bytes of the string, returns \<open>len\<close> and has advanced \<open>*offset\<close> by \<open>len\<close>.
\<close>

theorem read_copies_len:
  assumes "buffer_sized s" and "strlen (message_buffer s) = Some len"
  shows "\<exists>user' offset' ret.
           ldd_read_proc s user count offset = Inr (s, user', offset', ret) \<and>
           (\<exists>k\<le>len. user' = take k (message_buffer s) @ drop k user) \<and>
           length user' = length user \<and>
           (0 < sint ret \<longrightarrow>
              user' = take len (message_buffer s) @ drop len user \<and>
              len \<le> length user \<and>
              ret = word_of_nat len \<and> sint ret = int len \<and>
              offset' = offset + word_of_nat len)"
proof -
  have len: "len \<le> 128"
    using assms by (rule strlen_sized)
  have lt: "len < length (message_buffer s)"
    using assms(2) by (simp add: strlen_Some_iff)
  note unf = read_unfold [OF assms, of user count offset]
  consider (eof) "len \<le> unat offset \<or> unat count < len"
    | (fail) "\<not> (len \<le> unat offset \<or> unat count < len)" "length user < len"
    | (ok) "\<not> (len \<le> unat offset \<or> unat count < len)" "len \<le> length user"
    by linarith
  then show ?thesis
  proof cases
    case eof
    then have "ldd_read_proc s user count offset = Inr (s, user, offset, 0)"
      using unf by simp
    moreover have "user = take 0 (message_buffer s) @ drop 0 user"
      by simp
    ultimately show ?thesis
      by (metis le0 sint_0 less_irrefl)
  next
    case fail
    then have "ldd_read_proc s user count offset =
        Inr (s, take (length user) (message_buffer s), offset, word_of_int (- EFAULT))"
      using unf by (simp add: copy_to_user_unfold min_def)
    moreover have "length (take (length user) (message_buffer s)) = length user"
      using fail(2) lt by simp
    moreover have "take (length user) (message_buffer s) =
        take (length user) (message_buffer s) @ drop (length user) user"
      by simp
    moreover have "length user \<le> len"
      using fail(2) by simp
    moreover have "\<not> 0 < sint (word_of_int (- EFAULT) :: 64 word)"
      using sint_EFAULT by linarith
    ultimately show ?thesis
      by metis
  next
    case ok
    then have "ldd_read_proc s user count offset =
        Inr (s, take len (message_buffer s) @ drop len user, offset + word_of_nat len,
             word_of_nat len)"
      using unf by (simp add: copy_to_user_unfold min_def)
    moreover have "length (take len (message_buffer s) @ drop len user) = length user"
      using ok(2) lt by simp
    moreover have "sint (word_of_nat len :: 64 word) = int len"
      using len by (rule sint_len)
    ultimately show ?thesis
      using ok(2) by blast
  qed
qed

theorem read_copies_len_witness:
  "buffer_sized initial_state \<and> strlen (message_buffer initial_state) = Some 34 \<and>
   (\<exists>user' offset' ret.
      ldd_read_proc initial_state (replicate 40 NUL) 40 0 =
        Inr (initial_state, user', offset', ret) \<and>
      (\<exists>k\<le>34. user' = take k (message_buffer initial_state) @ drop k (replicate 40 NUL)) \<and>
      length user' = length (replicate 40 NUL :: char list) \<and>
      (0 < sint ret \<longrightarrow>
         user' = take 34 (message_buffer initial_state) @ drop 34 (replicate 40 NUL) \<and>
         34 \<le> length (replicate 40 NUL :: char list) \<and>
         ret = word_of_nat 34 \<and> sint ret = int 34 \<and>
         offset' = 0 + word_of_nat 34)) \<and>
   ldd_read_proc initial_state (replicate 40 NUL) 40 0 =
     Inr (initial_state, greeting @ replicate 6 NUL, 34, 34)"
proof -
  have "ldd_read_proc initial_state (replicate 40 NUL) 40 0 =
     Inr (initial_state, greeting @ replicate 6 NUL, 34, 34)"
    by code_simp
  then show ?thesis
    using read_copies_len [OF initial_sized initial_strlen, of "replicate 40 NUL" 40 0]
      initial_sized initial_strlen
    by (simp only: simp_thms)
qed

text \<open>
  C2, amended. Let \<open>n = min count MAX_INPUT_SIZE\<close>, which is at most 128. A write whose
  \<open>copy_from_user\<close> succeeds copies exactly \<open>n\<close> bytes from the user buffer to the start
  of \<open>message_buffer\<close>, stores NUL at index \<open>n\<close> and returns \<open>n\<close>. Every write, whether
  its copy succeeds or not, leaves the buffer at its size and leaves the bytes after
  index \<open>n\<close> as they were, so no write stores more than 128 payload bytes.
\<close>

theorem write_bounded:
  assumes "buffer_sized s" and "n = min (unat count) MAX_INPUT_SIZE"
  shows "n \<le> MAX_INPUT_SIZE \<and>
     (snd (copy_from_user (message_buffer s) user n) = 0 \<longrightarrow>
        n \<le> length user \<and>
        ldd_write_proc s user count offset =
          (s\<lparr>message_buffer := take n user @ NUL # drop (Suc n) (message_buffer s)\<rparr>,
           offset, word_of_nat n) \<and>
        sint (word_of_nat n :: ssize_t) = int n) \<and>
     length (message_buffer (fst (ldd_write_proc s user count offset))) = MAX_INPUT_SIZE + 1 \<and>
     drop (Suc n) (message_buffer (fst (ldd_write_proc s user count offset))) =
       drop (Suc n) (message_buffer s)"
proof -
  have n: "n \<le> MAX_INPUT_SIZE"
    using assms(2) by simp
  then have "sint (word_of_nat n :: ssize_t) = int n"
    by (simp add: sint_len MAX_INPUT_SIZE_def)
  then show ?thesis
    using n write_ok_buffer [OF assms] write_frame [OF assms] by blast
qed

theorem write_bounded_witness:
  "buffer_sized initial_state \<and> (3::nat) = min (unat (3 :: size_t)) MAX_INPUT_SIZE \<and>
   snd (copy_from_user (message_buffer initial_state) ''abc'' 3) = 0 \<and>
   ldd_write_proc initial_state ''abc'' 3 0 =
     (initial_state\<lparr>message_buffer :=
        take 3 ''abc'' @ NUL # drop (Suc 3) (message_buffer initial_state)\<rparr>, 0, word_of_nat 3) \<and>
   take 5 (message_buffer (fst (ldd_write_proc initial_state ''abc'' 3 0))) =
     [CHR ''a'', CHR ''b'', CHR ''c'', NUL, CHR ''o'']"
proof -
  have a: "(3::nat) = min (unat (3 :: size_t)) MAX_INPUT_SIZE"
    by (simp add: MAX_INPUT_SIZE_def)
  have b: "snd (copy_from_user (message_buffer initial_state) ''abc'' 3) = 0"
    by (simp add: copy_from_user_def)
  have c: "take 5 (message_buffer (fst (ldd_write_proc initial_state ''abc'' 3 0))) =
     [CHR ''a'', CHR ''b'', CHR ''c'', NUL, CHR ''o'']"
    by code_simp
  show ?thesis
    using write_bounded [OF initial_sized a, of "''abc''" 0] initial_sized a b c
    by (simp only: simp_thms)
qed

text \<open>
  The claim as stated, for every call, fails where the copy faults: from user memory
  that holds two readable bytes a write of five bytes copies two, returns \<open>-EFAULT\<close>
  before the terminator is stored, and index 5 keeps the blank of the greeting.
\<close>

theorem write_fault_counterexample:
  "snd (copy_from_user (message_buffer initial_state) ''ab'' 5) = 3 \<and>
   snd (snd (ldd_write_proc initial_state ''ab'' 5 0)) = word_of_int (- EFAULT) \<and>
   take 7 (message_buffer (fst (ldd_write_proc initial_state ''ab'' 5 0))) =
     [CHR ''a'', CHR ''b'', NUL, NUL, NUL, CHR '' '', CHR ''f''] \<and>
   message_buffer (fst (ldd_write_proc initial_state ''ab'' 5 0)) ! 5 \<noteq> NUL"
  by code_simp

text \<open>
  C1, amended. The bytes a successful write takes from the user buffer, \<open>written\<close>
  (the first \<open>min count MAX_INPUT_SIZE\<close> bytes), come back from the next read when they
  hold no NUL byte: a read with \<open>*offset = 0\<close>, \<open>count\<close> at least their length and user
  memory that can take them stores exactly \<open>written\<close> at the user pointer and returns
  their length.
\<close>

theorem write_then_read_echo:
  assumes "buffer_sized s"
    and "written = take (min (unat wcount) MAX_INPUT_SIZE) wuser"
    and "snd (copy_from_user (message_buffer s) wuser (min (unat wcount) MAX_INPUT_SIZE)) = 0"
    and "NUL \<notin> set written"
    and "length written \<le> unat rcount" and "length written \<le> length ruser"
  shows "\<exists>s1. ldd_write_proc s wuser wcount woffset =
                 (s1, woffset, word_of_nat (length written)) \<and>
              ldd_read_proc s1 ruser rcount 0 =
                 Inr (s1, written @ drop (length written) ruser,
                      word_of_nat (length written), word_of_nat (length written))"
proof -
  define n where "n = min (unat wcount) MAX_INPUT_SIZE"
  define s1 where
    "s1 = s\<lparr>message_buffer := written @ NUL # drop (Suc n) (message_buffer s)\<rparr>"
  have ok: "snd (copy_from_user (message_buffer s) wuser n) = 0"
    using assms(3) by (simp only: n_def)
  have nu: "n \<le> length wuser"
    using write_ok_buffer(1) [OF assms(1) n_def ok] .
  then have lw: "length written = n"
    using assms(2) by (simp add: n_def)
  have w: "ldd_write_proc s wuser wcount woffset = (s1, woffset, word_of_nat (length written))"
    using write_ok_buffer(2) [OF assms(1) n_def ok, of woffset] assms(2) lw
    by (simp add: s1_def n_def)
  have n128: "n \<le> MAX_INPUT_SIZE"
    by (simp add: n_def)
  have sized: "buffer_sized s1"
    using assms(1) lw n128 by (simp add: s1_def buffer_sized_def)
  have len: "strlen (message_buffer s1) = Some n"
    using strlen_append_NUL [OF assms(4)] lw by (simp add: s1_def)
  have tk: "take n (message_buffer s1) = written"
    using lw by (simp add: s1_def)
  have "ldd_read_proc s1 ruser rcount 0 =
      Inr (s1, written @ drop n ruser, word_of_nat n, word_of_nat n)"
  proof (cases "n = 0")
    case True
    then show ?thesis
      using lw by (simp add: read_unfold [OF sized len])
  next
    case False
    then show ?thesis
      using assms(5,6) lw tk
      by (simp add: read_unfold [OF sized len] copy_to_user_unfold min_def)
  qed
  then show ?thesis
    using w lw by simp
qed

theorem write_then_read_echo_witness:
  "buffer_sized initial_state \<and>
   ''abc'' = take (min (unat (3 :: size_t)) MAX_INPUT_SIZE) ''abc'' \<and>
   snd (copy_from_user (message_buffer initial_state) ''abc''
          (min (unat (3 :: size_t)) MAX_INPUT_SIZE)) = 0 \<and>
   NUL \<notin> set ''abc'' \<and>
   length ''abc'' \<le> unat (5 :: size_t) \<and> length ''abc'' \<le> length ''.....'' \<and>
   (\<exists>s1. ldd_write_proc initial_state ''abc'' 3 7 = (s1, 7, word_of_nat (length ''abc'')) \<and>
          ldd_read_proc s1 ''.....'' 5 0 =
            Inr (s1, ''abc'' @ drop (length ''abc'') ''.....'',
                 word_of_nat (length ''abc''), word_of_nat (length ''abc''))) \<and>
   ldd_read_proc (fst (ldd_write_proc initial_state ''abc'' 3 7)) ''.....'' 5 0 =
     Inr (fst (ldd_write_proc initial_state ''abc'' 3 7), ''abc..'', 3, 3)"
proof -
  have a: "''abc'' = take (min (unat (3 :: size_t)) MAX_INPUT_SIZE) ''abc''"
    by (simp add: MAX_INPUT_SIZE_def)
  have b: "snd (copy_from_user (message_buffer initial_state) ''abc''
          (min (unat (3 :: size_t)) MAX_INPUT_SIZE)) = 0"
    by (simp add: copy_from_user_def MAX_INPUT_SIZE_def)
  have c: "NUL \<notin> set ''abc''"
    by (simp add: NUL_def)
  have d: "length ''abc'' \<le> unat (5 :: size_t)"
    by simp
  have e: "length ''abc'' \<le> length ''.....''"
    by simp
  have f: "ldd_read_proc (fst (ldd_write_proc initial_state ''abc'' 3 7)) ''.....'' 5 0 =
     Inr (fst (ldd_write_proc initial_state ''abc'' 3 7), ''abc..'', 3, 3)"
    by code_simp
  show ?thesis
    using write_then_read_echo [OF initial_sized a b c d e, of 7] initial_sized a b c d e f
    by (simp only: simp_thms)
qed

text \<open>
  The claim as stated, for every sequence of bytes, fails on a sequence with a NUL
  byte in it: after the three bytes \<open>a\<close>, NUL, \<open>b\<close> were written (the write returns 3),
  the read returns 1 and hands back \<open>a\<close> only, since \<open>strlen\<close> stops at the first NUL.
\<close>

theorem echo_counterexample:
  "snd (copy_from_user (message_buffer initial_state) [CHR ''a'', NUL, CHR ''b''] 3) = 0 \<and>
   snd (snd (ldd_write_proc initial_state [CHR ''a'', NUL, CHR ''b''] 3 0)) = 3 \<and>
   ldd_read_proc (fst (ldd_write_proc initial_state [CHR ''a'', NUL, CHR ''b''] 3 0))
       ''.....'' 5 0 =
     Inr (fst (ldd_write_proc initial_state [CHR ''a'', NUL, CHR ''b''] 3 0), ''a....'', 1, 1) \<and>
   take 3 ''a....'' \<noteq> [CHR ''a'', NUL, CHR ''b'']"
  by code_simp

text \<open>
  C9. The write handler does not depend on \<open>*offset\<close>: two calls that differ in the
  offset only end in the same module state and return the same value, and \<open>*offset\<close>
  after the call is \<open>*offset\<close> before it. Every write stores from index 0: the bytes that
  could be read from the user buffer, up to \<open>min count MAX_INPUT_SIZE\<close> of them, are the
  first bytes of \<open>message_buffer\<close> after the call.
\<close>

theorem write_ignores_offset:
  "fst (ldd_write_proc s user count offset1) = fst (ldd_write_proc s user count offset2) \<and>
   snd (snd (ldd_write_proc s user count offset1)) =
     snd (snd (ldd_write_proc s user count offset2)) \<and>
   fst (snd (ldd_write_proc s user count offset1)) = offset1 \<and>
   take (min (min (unat count) MAX_INPUT_SIZE) (length user))
        (message_buffer (fst (ldd_write_proc s user count offset1))) =
     take (min (min (unat count) MAX_INPUT_SIZE) (length user)) user"
proof -
  define n where "n = min (unat count) MAX_INPUT_SIZE"
  define k where "k = min n (length user)"
  define buf where "buf = fst (copy_from_user (message_buffer s) user n)"
  have kn: "k \<le> n" and ku: "k \<le> length user"
    by (simp_all add: k_def)
  have "buf = take k user @ replicate (n - k) NUL @ drop n (message_buffer s)"
    by (simp add: buf_def copy_from_user_def Let_def k_def)
  then have tk: "take k buf = take k user"
    using ku by simp
  then have "take k (buf[n := NUL]) = take k user"
    using kn by simp
  then have "take k (message_buffer (fst (ldd_write_proc s user count offset1))) = take k user"
    using tk by (simp add: write_unfold Let_def flip: n_def buf_def)
  moreover have "fst (ldd_write_proc s user count offset1) =
      fst (ldd_write_proc s user count offset2)"
    by (simp add: write_unfold Let_def)
  moreover have "snd (snd (ldd_write_proc s user count offset1)) =
      snd (snd (ldd_write_proc s user count offset2))"
    by (simp add: write_unfold Let_def)
  moreover have "fst (snd (ldd_write_proc s user count offset1)) = offset1"
    by (simp add: write_unfold Let_def)
  ultimately show ?thesis
    by (simp only: k_def n_def simp_thms)
qed

theorem write_ignores_offset_witness:
  "fst (ldd_write_proc initial_state ''abc'' 3 0) = fst (ldd_write_proc initial_state ''abc'' 3 99) \<and>
   snd (snd (ldd_write_proc initial_state ''abc'' 3 0)) =
     snd (snd (ldd_write_proc initial_state ''abc'' 3 99)) \<and>
   fst (snd (ldd_write_proc initial_state ''abc'' 3 0)) = 0 \<and>
   take (min (min (unat (3 :: size_t)) MAX_INPUT_SIZE) (length ''abc''))
        (message_buffer (fst (ldd_write_proc initial_state ''abc'' 3 0))) =
     take (min (min (unat (3 :: size_t)) MAX_INPUT_SIZE) (length ''abc'')) ''abc'' \<and>
   snd (ldd_write_proc initial_state ''abc'' 3 99) = (99, 3)"
proof -
  have c: "snd (ldd_write_proc initial_state ''abc'' 3 99) = (99, 3)"
    by code_simp
  note t = write_ignores_offset [of initial_state "''abc''" 3 0 99]
  from t c show ?thesis
    by blast
qed

text \<open>
  C5. On a buffer of the declared size holding a string of length \<open>len\<close>, the read
  handler returns \<open>-EFAULT\<close> exactly when it gets past its guard and \<open>copy_to_user\<close> leaves
  bytes uncopied, and the write handler returns \<open>-EFAULT\<close> exactly when \<open>copy_from_user\<close>
  (called with \<open>min count MAX_INPUT_SIZE\<close>) leaves bytes uncopied. For both, the value
  returned is negative exactly when it is \<open>-EFAULT\<close>, which is the negative number -14.
\<close>

theorem efault_iff:
  assumes "buffer_sized s" and "strlen (message_buffer s) = Some len"
  shows "(\<exists>user' offset' ret.
            ldd_read_proc s user count offset = Inr (s, user', offset', ret) \<and>
            (ret = word_of_int (- EFAULT) \<longleftrightarrow>
               \<not> (offset \<ge> word_of_nat len \<or> count < word_of_nat len) \<and>
               snd (copy_to_user user (message_buffer s) len) \<noteq> 0) \<and>
            (sint ret < 0 \<longleftrightarrow> ret = word_of_int (- EFAULT))) \<and>
         (\<exists>s' ret.
            ldd_write_proc s user count offset = (s', offset, ret) \<and>
            (ret = word_of_int (- EFAULT) \<longleftrightarrow>
               snd (copy_from_user (message_buffer s) user
                      (min (unat count) MAX_INPUT_SIZE)) \<noteq> 0) \<and>
            (sint ret < 0 \<longleftrightarrow> ret = word_of_int (- EFAULT))) \<and>
         sint (word_of_int (- EFAULT) :: ssize_t) = - EFAULT \<and> - EFAULT < 0"
proof -
  have len: "len \<le> 128"
    using assms by (rule strlen_sized)
  have zero: "(0 :: 64 word) \<noteq> word_of_int (- EFAULT)"
    using len_not_EFAULT [of 0] by simp
  have neg0: "sint (0 :: 64 word) < 0 \<longleftrightarrow> (0 :: 64 word) = word_of_int (- EFAULT)"
    using ret_negative_iff [of "word_of_nat 0"] by auto
  have negE: "sint (word_of_int (- EFAULT) :: 64 word) < 0"
    using sint_EFAULT by simp
  have neglen: "sint (word_of_nat k :: 64 word) < 0 \<longleftrightarrow>
      (word_of_nat k :: 64 word) = word_of_int (- EFAULT)" if "k \<le> 128" for k
    using that ret_negative_iff [of "word_of_nat k"] by blast
  have r: "\<exists>user' offset' ret.
            ldd_read_proc s user count offset = Inr (s, user', offset', ret) \<and>
            (ret = word_of_int (- EFAULT) \<longleftrightarrow>
               \<not> (offset \<ge> word_of_nat len \<or> count < word_of_nat len) \<and>
               snd (copy_to_user user (message_buffer s) len) \<noteq> 0) \<and>
            (sint ret < 0 \<longleftrightarrow> ret = word_of_int (- EFAULT))"
    using assms(2)
  proof (cases rule: read_cases [of s len offset count user])
    case eof
    then show ?thesis
      using zero neg0 by blast
  next
    case fail
    then show ?thesis
      using negE by blast
  next
    case ok
    then show ?thesis
      using len_not_EFAULT [OF len] neglen [OF len] by blast
  qed
  let ?n = "min (unat count) MAX_INPUT_SIZE"
  have n: "?n \<le> 128"
    by (simp add: MAX_INPUT_SIZE_def)
  have w: "\<exists>s' ret.
            ldd_write_proc s user count offset = (s', offset, ret) \<and>
            (ret = word_of_int (- EFAULT) \<longleftrightarrow>
               snd (copy_from_user (message_buffer s) user ?n) \<noteq> 0) \<and>
            (sint ret < 0 \<longleftrightarrow> ret = word_of_int (- EFAULT))"
  proof (cases "snd (copy_from_user (message_buffer s) user ?n) = 0")
    case True
    then have "ldd_write_proc s user count offset =
        (s\<lparr>message_buffer := (fst (copy_from_user (message_buffer s) user ?n))[?n := NUL]\<rparr>,
         offset, word_of_nat ?n)"
      by (simp add: write_unfold Let_def)
    then show ?thesis
      using True len_not_EFAULT [OF n] neglen [OF n] by blast
  next
    case False
    then have "ldd_write_proc s user count offset =
        (s\<lparr>message_buffer := fst (copy_from_user (message_buffer s) user ?n)\<rparr>,
         offset, word_of_int (- EFAULT))"
      by (simp add: write_unfold Let_def)
    then show ?thesis
      using False negE by blast
  qed
  have "sint (word_of_int (- EFAULT) :: ssize_t) = - EFAULT \<and> - EFAULT < 0"
    using sint_EFAULT by (simp add: EFAULT_def)
  then show ?thesis
    using r w by blast
qed

theorem efault_iff_witness:
  "buffer_sized initial_state \<and> strlen (message_buffer initial_state) = Some 34 \<and>
   ((\<exists>user' offset' ret.
        ldd_read_proc initial_state ''ab'' 40 0 = Inr (initial_state, user', offset', ret) \<and>
        (ret = word_of_int (- EFAULT) \<longleftrightarrow>
           \<not> ((0 :: loff_t) \<ge> word_of_nat 34 \<or> (40 :: size_t) < word_of_nat 34) \<and>
           snd (copy_to_user ''ab'' (message_buffer initial_state) 34) \<noteq> 0) \<and>
        (sint ret < 0 \<longleftrightarrow> ret = word_of_int (- EFAULT))) \<and>
    (\<exists>s' ret.
        ldd_write_proc initial_state ''ab'' 40 0 = (s', 0, ret) \<and>
        (ret = word_of_int (- EFAULT) \<longleftrightarrow>
           snd (copy_from_user (message_buffer initial_state) ''ab''
                  (min (unat (40 :: size_t)) MAX_INPUT_SIZE)) \<noteq> 0) \<and>
        (sint ret < 0 \<longleftrightarrow> ret = word_of_int (- EFAULT))) \<and>
    sint (word_of_int (- EFAULT) :: ssize_t) = - EFAULT \<and> - EFAULT < 0) \<and>
   ldd_read_proc initial_state ''ab'' 40 0 =
     Inr (initial_state, ''He'', 0, word_of_int (- EFAULT)) \<and>
   snd (ldd_write_proc initial_state ''ab'' 40 0) = (0, word_of_int (- EFAULT))"
proof -
  have a: "ldd_read_proc initial_state ''ab'' 40 0 =
     Inr (initial_state, ''He'', 0, word_of_int (- EFAULT))"
    by code_simp
  have b: "snd (ldd_write_proc initial_state ''ab'' 40 0) = (0, word_of_int (- EFAULT))"
    by code_simp
  note t = efault_iff [OF initial_sized initial_strlen, of "''ab''" 40 0]
  from t a b initial_sized initial_strlen show ?thesis
    by blast
qed

text \<open>
  C6. When \<open>proc_create\<close> returns an entry, \<open>mydrv_init\<close> has registered one node, the
  entry named \<open>ldd_demo_driver\<close>, keeps the pointer to it in \<open>custom_proc_node\<close> and
  returns 0. When \<open>proc_create\<close> returns \<open>NULL\<close>, \<open>mydrv_init\<close> returns \<open>-ENOMEM\<close>, a negative
  number, the proc filesystem is as it was and \<open>custom_proc_node\<close> is \<open>NULL\<close>.
\<close>

theorem init_result:
  "(snd (proc_create can_alloc node_name node_mode driver_proc_ops fs) \<noteq> None \<longrightarrow>
      mydrv_init can_alloc fs s =
        (fs @ [ldd_node], s\<lparr>custom_proc_node := Some ldd_node\<rparr>, 0) \<and>
      pde_name ldd_node = ''ldd_demo_driver'') \<and>
   (snd (proc_create can_alloc node_name node_mode driver_proc_ops fs) = None \<longrightarrow>
      mydrv_init can_alloc fs s = (fs, s\<lparr>custom_proc_node := None\<rparr>, - ENOMEM)) \<and>
   - ENOMEM < 0"
  by (simp add: proc_create_None_iff init_unfold ldd_node_def ENOMEM_def node_name_def)

theorem init_result_witness:
  "snd (proc_create True node_name node_mode driver_proc_ops []) \<noteq> None \<and>
   mydrv_init True [] initial_state =
        ([ldd_node], initial_state\<lparr>custom_proc_node := Some ldd_node\<rparr>, 0) \<and>
   snd (proc_create False node_name node_mode driver_proc_ops []) = None \<and>
   mydrv_init False [] initial_state = ([], initial_state, - 12) \<and>
   snd (proc_create True node_name node_mode driver_proc_ops [ldd_node]) = None \<and>
   mydrv_init True [ldd_node] initial_state = ([ldd_node], initial_state, - 12)"
proof -
  have a: "snd (proc_create True node_name node_mode driver_proc_ops []) \<noteq> None"
    by (simp add: proc_create_def Let_def)
  have b: "snd (proc_create False node_name node_mode driver_proc_ops []) = None"
    by (simp add: proc_create_def)
  have c: "snd (proc_create True node_name node_mode driver_proc_ops [ldd_node]) = None"
    by (simp add: proc_create_def ldd_node_def)
  have i: "initial_state\<lparr>custom_proc_node := None\<rparr> = initial_state"
    by (simp add: initial_state_def)
  show ?thesis
    using init_result [of True "[]" initial_state] init_result [of False "[]" initial_state]
      init_result [of True "[ldd_node]" initial_state] a b c i
    by (simp add: ENOMEM_def)
qed

text \<open>
  C7. After a \<open>mydrv_init\<close> that returned 0, \<open>custom_proc_node\<close> points to the node and the
  node is registered (it is the one entry added to the proc filesystem, and was not there
  before); \<open>mydrv_exit\<close> then removes it, which gives back the proc filesystem from before
  the load, and sets \<open>custom_proc_node\<close> to \<open>NULL\<close>. In any state \<open>mydrv_exit\<close> removes the
  entry \<open>custom_proc_node\<close> points to and no other, and does nothing when the pointer is
  \<open>NULL\<close>. Neither function touches \<open>message_buffer\<close>.
\<close>

theorem node_lifecycle:
  "(mydrv_init can_alloc fs s = (fs1, s1, 0) \<longrightarrow>
      custom_proc_node s1 = Some ldd_node \<and> fs1 = fs @ [ldd_node] \<and>
      ldd_node \<notin> set fs \<and> message_buffer s1 = message_buffer s \<and>
      mydrv_exit fs1 s1 = (fs, s1\<lparr>custom_proc_node := None\<rparr>)) \<and>
   (custom_proc_node s2 = Some node \<longrightarrow>
      mydrv_exit fs2 s2 = (removeAll node fs2, s2\<lparr>custom_proc_node := None\<rparr>)) \<and>
   (custom_proc_node s2 = None \<longrightarrow> mydrv_exit fs2 s2 = (fs2, s2))"
proof -
  have "custom_proc_node s1 = Some ldd_node \<and> fs1 = fs @ [ldd_node] \<and>
      ldd_node \<notin> set fs \<and> message_buffer s1 = message_buffer s \<and>
      mydrv_exit fs1 s1 = (fs, s1\<lparr>custom_proc_node := None\<rparr>)"
    if i: "mydrv_init can_alloc fs s = (fs1, s1, 0)"
  proof -
    have ok: "can_alloc \<and> node_name \<notin> set (map pde_name fs)"
      using i by (simp add: init_unfold ENOMEM_def split: if_splits)
    then have r: "fs1 = fs @ [ldd_node]" "s1 = s\<lparr>custom_proc_node := Some ldd_node\<rparr>"
      using i by (simp_all add: init_unfold)
    have "pde_name ldd_node = node_name"
      by (simp add: ldd_node_def)
    then have notin: "ldd_node \<notin> set fs"
      using ok by force
    then have "removeAll ldd_node (fs @ [ldd_node]) = fs"
      by simp
    then show ?thesis
      using r notin by (simp add: mydrv_exit_def proc_remove_def)
  qed
  moreover have "mydrv_exit fs2 s2 = (removeAll node fs2, s2\<lparr>custom_proc_node := None\<rparr>)"
    if "custom_proc_node s2 = Some node"
    using that by (simp add: mydrv_exit_def proc_remove_def)
  moreover have "mydrv_exit fs2 s2 = (fs2, s2)" if "custom_proc_node s2 = None"
    using that by (simp add: mydrv_exit_def)
  ultimately show ?thesis
    by blast
qed

theorem node_lifecycle_witness:
  "mydrv_init True [] initial_state =
     ([ldd_node], initial_state\<lparr>custom_proc_node := Some ldd_node\<rparr>, 0) \<and>
   custom_proc_node (initial_state\<lparr>custom_proc_node := Some ldd_node\<rparr>) = Some ldd_node \<and>
   mydrv_exit [ldd_node] (initial_state\<lparr>custom_proc_node := Some ldd_node\<rparr>) =
     ([], initial_state) \<and>
   custom_proc_node initial_state = None \<and>
   mydrv_exit [ldd_node] initial_state = ([ldd_node], initial_state)"
proof -
  have a: "mydrv_init True [] initial_state =
     ([ldd_node], initial_state\<lparr>custom_proc_node := Some ldd_node\<rparr>, 0)"
    by (simp add: init_unfold)
  have b: "custom_proc_node initial_state = None"
    by (simp add: initial_state_def)
  have c: "initial_state\<lparr>custom_proc_node := None\<rparr> = initial_state"
    by (simp add: initial_state_def)
  show ?thesis
    using node_lifecycle [where can_alloc = True and fs = "[]" and s = initial_state
        and ?fs1.0 = "[ldd_node]"
        and ?s1.0 = "initial_state\<lparr>custom_proc_node := Some ldd_node\<rparr>"
        and ?s2.0 = initial_state and ?fs2.0 = "[ldd_node]" and node = ldd_node]
      a b c
    by simp
qed

end
